theory Spec2Isabelle
  imports Main
begin

section \<open>Python values used by \<open>main.py\<close>\<close>

text \<open>
  A Python \<open>str\<close> is a sequence of Unicode code points, and \<open>len\<close>, \<open>strip\<close> and the
  regular expression engine all work on code points. A string is therefore a list of
  code points (natural numbers); \<open>ustr\<close> turns an ASCII literal into one.
\<close>

type_synonym pystr = "nat list"

definition ustr :: "string \<Rightarrow> pystr" where
  "ustr cs = map of_char cs"

text \<open>The line feed, \<open>'\n'\<close>.\<close>

definition LF :: nat where
  "LF = 10"

text \<open>
  \<open>str.isspace\<close> for one code point: the code points Python 3 treats as whitespace.
  \<open>str.strip()\<close> with no argument removes them from both ends.
\<close>

definition isspace :: "nat \<Rightarrow> bool" where
  "isspace c \<longleftrightarrow>
     (9 \<le> c \<and> c \<le> 13) \<or> (28 \<le> c \<and> c \<le> 32) \<or> c = 133 \<or> c = 160 \<or> c = 5760 \<or>
     (8192 \<le> c \<and> c \<le> 8202) \<or> c = 8232 \<or> c = 8233 \<or> c = 8239 \<or> c = 8287 \<or>
     c = 12288"

definition strip :: "pystr \<Rightarrow> pystr" where
  "strip s = rev (dropWhile isspace (rev (dropWhile isspace s)))"

section \<open>The regular expression of the address validator\<close>

text \<open>
  The fragment of Python's \<open>re\<close> syntax that \<open>base58_regex\<close> uses: \<open>^\<close>, \<open>$\<close> and a
  character class of ranges under a bounded repetition \<open>{lo,hi}\<close>.
\<close>

datatype regex_item =
    Caret
  | Dollar
  | ClassRepeat "(char \<times> char) list" nat nat

definition in_class :: "(char \<times> char) list \<Rightarrow> nat \<Rightarrow> bool" where
  "in_class ranges c = list_ex (\<lambda>(lo, hi). of_char lo \<le> c \<and> c \<le> of_char hi) ranges"

text \<open>
  \<open>match_from items pos rest\<close>: the items match at position \<open>pos\<close>, where \<open>rest\<close> is the
  text from \<open>pos\<close> on. Without flags, \<open>^\<close> matches at the start of the string only, and
  \<open>$\<close> matches at the end of the string and also just before a line feed that is the
  last character. The repetition is greedy and backtracks: the longest count is tried
  first.
\<close>

fun match_from :: "regex_item list \<Rightarrow> nat \<Rightarrow> pystr \<Rightarrow> bool" where
  "match_from [] pos rest = True"
| "match_from (Caret # items) pos rest = (pos = 0 \<and> match_from items pos rest)"
| "match_from (Dollar # items) pos rest =
     ((rest = [] \<or> rest = [LF]) \<and> match_from items pos rest)"
| "match_from (ClassRepeat ranges lo hi # items) pos rest =
     list_ex (\<lambda>k. k \<le> length rest \<and> list_all (in_class ranges) (take k rest) \<and>
                  match_from items (pos + k) (drop k rest))
       (rev [lo ..< Suc hi])"

text \<open>\<open>bool(re.match(pattern, s))\<close>: a match that starts at position 0.\<close>

definition re_match :: "regex_item list \<Rightarrow> pystr \<Rightarrow> bool" where
  "re_match pattern s = match_from pattern 0 s"

section \<open>\<open>is_valid_solana_address\<close>\<close>

text \<open>\<open>r'^[1-9A-HJ-NP-Za-km-z]{32,44}$'\<close>\<close>

definition base58_regex :: "regex_item list" where
  "base58_regex =
     [Caret,
      ClassRepeat [(CHR ''1'', CHR ''9''), (CHR ''A'', CHR ''H''), (CHR ''J'', CHR ''N''),
                   (CHR ''P'', CHR ''Z''), (CHR ''a'', CHR ''k''), (CHR ''m'', CHR ''z'')] 32 44,
      Dollar]"

definition is_valid_solana_address :: "pystr \<Rightarrow> bool" where
  "is_valid_solana_address address = re_match base58_regex address"

text \<open>
  The validator as the specification words it: the length is between 32 and 44 and
  every character is in the base-58 alphabet (digits 1-9, upper case letters except
  I and O, lower case letters except l).
\<close>

definition base58_alphabet :: pystr where
  "base58_alphabet = ustr ''123456789ABCDEFGHJKLMNPQRSTUVWXYZabcdefghijkmnopqrstuvwxyz''"

definition spec_is_valid :: "pystr \<Rightarrow> bool" where
  "spec_is_valid s \<longleftrightarrow>
     32 \<le> length s \<and> length s \<le> 44 \<and> list_all (\<lambda>c. c \<in> set base58_alphabet) s"

section \<open>Parsed JSON values\<close>

text \<open>
  A Python \<open>float\<close>, as far as the program looks at it: a finite value
  \<open>(-1)^sign * mantissa * 2^exponent\<close>, an infinity or a NaN.
\<close>

datatype pyfloat =
    FloatFinite bool nat int
  | FloatInf bool
  | FloatNaN

text \<open>
  What \<open>response.json()\<close> returns: \<open>None\<close>, a \<open>bool\<close>, an \<open>int\<close>, a \<open>float\<close>, a
  \<open>str\<close>, a \<open>list\<close> or a \<open>dict\<close> with string keys (an association list, read with
  \<open>map_of\<close>). \<open>JNull\<close> is Python's \<open>None\<close>.
\<close>

datatype json =
    JNull
  | JBool bool
  | JInt int
  | JFloat pyfloat
  | JStr pystr
  | JArr "json list"
  | JObj "(pystr \<times> json) list"

text \<open>Python's truth value of an object, as \<open>if not quote\<close> tests it.\<close>

fun truthy :: "json \<Rightarrow> bool" where
  "truthy JNull = False"
| "truthy (JBool b) = b"
| "truthy (JInt i) = (i \<noteq> 0)"
| "truthy (JFloat (FloatFinite sign mantissa exponent)) = (mantissa \<noteq> 0)"
| "truthy (JFloat (FloatInf sign)) = True"
| "truthy (JFloat FloatNaN) = True"
| "truthy (JStr s) = (s \<noteq> [])"
| "truthy (JArr xs) = (xs \<noteq> [])"
| "truthy (JObj kvs) = (kvs \<noteq> [])"

section \<open>Exceptions, effects and the environment\<close>

text \<open>
  The exceptions the modelled calls raise. All of them are subclasses of \<open>Exception\<close>,
  so \<open>except Exception\<close> catches each of them.
\<close>

datatype py_exception =
    RequestException pystr
  | HTTPError nat
  | JSONDecodeError
  | KeyError pystr
  | TypeError
  | TelegramError pystr

text \<open>
  What a run does to the outside world and to the module's global set, in order:
  \<open>processed_addresses.add\<close>, \<open>requests.get\<close> (URL and query parameters),
  \<open>logger.error\<close> (the message's fixed prefix and the exception),
  \<open>context.bot.send_message\<close> (chat id, text, parse mode) and
  \<open>update.message.reply_text\<close>.
\<close>

datatype event =
    RegistryAdd pystr
  | HttpGet pystr "(pystr \<times> json) list"
  | LogError pystr py_exception
  | SendMessage pystr pystr pystr
  | ReplyText pystr

text \<open>
  The HTTP response as the code reads it: the status code, and the parsed body
  (\<open>None\<close> when the body is not JSON, where \<open>response.json()\<close> raises).
\<close>

record response =
  status_code :: nat
  json_body :: "json option"

text \<open>
  Everything \<open>main.py\<close> takes from outside: the environment variable
  \<open>GROUP_CHAT_ID\<close> (\<open>os.getenv\<close> gives \<open>None\<close> or a string), the outcome of the HTTP
  request, the outcomes of the two Telegram calls (\<open>None\<close>: delivered; \<open>Some e\<close>: the
  call raises \<open>e\<close>), and Python's built-in formatting of a parsed JSON value inside an
  f-string.
\<close>

record env =
  GROUP_CHAT_ID :: "pystr option"
  requests_get :: "pystr \<Rightarrow> (pystr \<times> json) list \<Rightarrow> py_exception + response"
  bot_send_message :: "pystr \<Rightarrow> pystr \<Rightarrow> pystr \<Rightarrow> py_exception option"
  message_reply_text :: "pystr \<Rightarrow> py_exception option"
  format_value :: "json \<Rightarrow> pystr"

text \<open>
  A computation runs on the global set \<open>processed_addresses\<close> and gives back the value
  it returns or the exception it raises, the set afterwards, and the events it caused.
\<close>

type_synonym registry = "pystr set"

type_synonym 'a io = "registry \<Rightarrow> (py_exception + 'a) \<times> registry \<times> event list"

definition io_return :: "'a \<Rightarrow> 'a io" where
  "io_return x = (\<lambda>reg. (Inr x, reg, []))"

definition io_raise :: "py_exception \<Rightarrow> 'a io" where
  "io_raise e = (\<lambda>reg. (Inl e, reg, []))"

definition io_bind :: "'a io \<Rightarrow> ('a \<Rightarrow> 'b io) \<Rightarrow> 'b io" where
  "io_bind m f = (\<lambda>reg.
     case m reg of
       (Inl e, reg', evs) \<Rightarrow> (Inl e, reg', evs)
     | (Inr x, reg', evs) \<Rightarrow>
         (case f x reg' of (res, reg'', evs') \<Rightarrow> (res, reg'', evs @ evs')))"

text \<open>\<open>try: m  except Exception as e: handler e\<close>\<close>

definition try_except :: "'a io \<Rightarrow> (py_exception \<Rightarrow> 'a io) \<Rightarrow> 'a io" where
  "try_except m handler = (\<lambda>reg.
     case m reg of
       (Inl e, reg', evs) \<Rightarrow>
         (case handler e reg' of (res, reg'', evs') \<Rightarrow> (res, reg'', evs @ evs'))
     | (Inr x, reg', evs) \<Rightarrow> (Inr x, reg', evs))"

text \<open>An outside call: it is recorded, and returns or raises as the outside decides.\<close>

definition perform :: "event \<Rightarrow> (py_exception + 'a) \<Rightarrow> 'a io" where
  "perform ev outcome = (\<lambda>reg. (outcome, reg, [ev]))"

definition outcome_of :: "py_exception option \<Rightarrow> py_exception + unit" where
  "outcome_of r = (case r of None \<Rightarrow> Inr () | Some e \<Rightarrow> Inl e)"

definition logger_error :: "pystr \<Rightarrow> py_exception \<Rightarrow> unit io" where
  "logger_error prefix e = perform (LogError prefix e) (Inr ())"

definition reply_text :: "env \<Rightarrow> pystr \<Rightarrow> unit io" where
  "reply_text env text = perform (ReplyText text) (outcome_of (message_reply_text env text))"

definition send_message :: "env \<Rightarrow> pystr \<Rightarrow> pystr \<Rightarrow> pystr \<Rightarrow> unit io" where
  "send_message env chat_id text parse_mode =
     perform (SendMessage chat_id text parse_mode)
       (outcome_of (bot_send_message env chat_id text parse_mode))"

definition http_get :: "env \<Rightarrow> pystr \<Rightarrow> (pystr \<times> json) list \<Rightarrow> response io" where
  "http_get env url params = perform (HttpGet url params) (requests_get env url params)"

text \<open>\<open>Response.raise_for_status\<close> of \<open>requests\<close>: it raises for 4xx and 5xx.\<close>

definition raise_for_status :: "response \<Rightarrow> unit io" where
  "raise_for_status resp =
     (if 400 \<le> status_code resp \<and> status_code resp < 600
      then io_raise (HTTPError (status_code resp)) else io_return ())"

definition response_json :: "response \<Rightarrow> json io" where
  "response_json resp =
     (case json_body resp of None \<Rightarrow> io_raise JSONDecodeError | Some j \<Rightarrow> io_return j)"

text \<open>\<open>processed_addresses\<close> read, and \<open>processed_addresses.add\<close>.\<close>

definition processed_addresses :: "registry io" where
  "processed_addresses = (\<lambda>reg. (Inr reg, reg, []))"

definition processed_addresses_add :: "pystr \<Rightarrow> unit io" where
  "processed_addresses_add a = (\<lambda>reg. (Inr (), insert a reg, [RegistryAdd a]))"

text \<open>
  \<open>quote[key]\<close> with a string key: a \<open>dict\<close> gives the value or raises \<open>KeyError\<close>;
  every other object raises \<open>TypeError\<close>.
\<close>

fun getitem :: "json \<Rightarrow> pystr \<Rightarrow> json io" where
  "getitem (JObj kvs) key =
     (case map_of kvs key of None \<Rightarrow> io_raise (KeyError key) | Some v \<Rightarrow> io_return v)"
| "getitem other key = io_raise TypeError"

section \<open>\<open>execute_jupiter_swap\<close>\<close>

definition quote_url :: pystr where
  "quote_url = ustr ''https://quote-api.jup.ag/v6/quote''"

definition params :: "pystr \<Rightarrow> (pystr \<times> json) list" where
  "params token_address =
     [(ustr ''inputMint'', JStr (ustr ''So11111111111111111111111111111111111111112'')),
      (ustr ''outputMint'', JStr token_address),
      (ustr ''amount'', JStr (ustr ''10000000'')),
      (ustr ''slippageBps'', JInt 1500)]"

definition execute_jupiter_swap :: "env \<Rightarrow> pystr \<Rightarrow> json io" where
  "execute_jupiter_swap env token_address =
     try_except
       (io_bind (http_get env quote_url (params token_address)) (\<lambda>response.
        io_bind (raise_for_status response) (\<lambda>_.
        response_json response)))
       (\<lambda>e.
        io_bind (logger_error (ustr ''Error getting Jupiter quote: '') e) (\<lambda>_.
        io_return JNull))"

section \<open>\<open>handle_message\<close>\<close>

definition invalid_text :: pystr where
  "invalid_text = ustr ''This doesn't look like a valid Solana address. Please try again.''"

definition already_text :: pystr where
  "already_text = ustr ''This address has already been processed.''"

definition failed_text :: pystr where
  "failed_text = ustr ''Failed to get quote from Jupiter. Please try again later.''"

text \<open>The two f-strings; \<open>out\<close> is \<open>quote['outAmount']\<close>, and 128640 is the rocket.\<close>

definition forward_text :: "env \<Rightarrow> pystr \<Rightarrow> json \<Rightarrow> pystr" where
  "forward_text env message_text out =
     [128640] @ ustr '' New Solana contract address received: '' @ [96] @ message_text @
     [96, LF] @ ustr ''Quote received: '' @ format_value env out @ ustr '' tokens''"

definition confirm_text :: "env \<Rightarrow> pystr \<Rightarrow> json \<Rightarrow> pystr" where
  "confirm_text env message_text out =
     ustr ''Processing swap for address: '' @ message_text @ [LF] @
     ustr ''Quote received: '' @ format_value env out @ ustr '' tokens''"

text \<open>\<open>if GROUP_CHAT_ID:\<close> holds for a string that is set and not empty.\<close>

definition forward_to_group :: "env \<Rightarrow> pystr \<Rightarrow> json \<Rightarrow> unit io" where
  "forward_to_group env message_text quote =
     (case GROUP_CHAT_ID env of
        None \<Rightarrow> io_return ()
      | Some chat_id \<Rightarrow>
          if chat_id = [] then io_return ()
          else
            try_except
              (io_bind (getitem quote (ustr ''outAmount'')) (\<lambda>out.
               send_message env chat_id (forward_text env message_text out) (ustr ''Markdown'')))
              (\<lambda>e. logger_error (ustr ''Failed to forward to group: '') e))"

definition handle_message :: "env \<Rightarrow> pystr \<Rightarrow> unit io" where
  "handle_message env text =
     (let message_text = strip text in
      if \<not> is_valid_solana_address message_text then reply_text env invalid_text
      else
        io_bind processed_addresses (\<lambda>processed.
        if message_text \<in> processed then reply_text env already_text
        else
          io_bind (processed_addresses_add message_text) (\<lambda>_.
          io_bind (execute_jupiter_swap env message_text) (\<lambda>quote.
          if \<not> truthy quote then reply_text env failed_text
          else
            io_bind (forward_to_group env message_text quote) (\<lambda>_.
            io_bind (getitem quote (ustr ''outAmount'')) (\<lambda>out.
            reply_text env (confirm_text env message_text out)))))))"

section \<open>Reading the events of a run\<close>

fun reply_of :: "event \<Rightarrow> pystr list" where
  "reply_of (ReplyText text) = [text]"
| "reply_of ev = []"

fun forward_of :: "event \<Rightarrow> (pystr \<times> pystr) list" where
  "forward_of (SendMessage chat_id text parse_mode) = [(chat_id, text)]"
| "forward_of ev = []"

fun quote_call_of :: "event \<Rightarrow> (pystr \<times> (pystr \<times> json) list) list" where
  "quote_call_of (HttpGet url ps) = [(url, ps)]"
| "quote_call_of ev = []"

fun insertion_of :: "event \<Rightarrow> pystr list" where
  "insertion_of (RegistryAdd a) = [a]"
| "insertion_of ev = []"

definition replies :: "event list \<Rightarrow> pystr list" where
  "replies evs = concat (map reply_of evs)"

definition forwards :: "event list \<Rightarrow> (pystr \<times> pystr) list" where
  "forwards evs = concat (map forward_of evs)"

definition quote_calls :: "event list \<Rightarrow> (pystr \<times> (pystr \<times> json) list) list" where
  "quote_calls evs = concat (map quote_call_of evs)"

definition insertions :: "event list \<Rightarrow> pystr list" where
  "insertions evs = concat (map insertion_of evs)"

text \<open>The three parts of what a run gives back.\<close>

definition result_of :: "(py_exception + 'a) \<times> registry \<times> event list \<Rightarrow> py_exception + 'a" where
  "result_of r = fst r"

definition registry_after :: "(py_exception + 'a) \<times> registry \<times> event list \<Rightarrow> registry" where
  "registry_after r = fst (snd r)"

definition events_of :: "(py_exception + 'a) \<times> registry \<times> event list \<Rightarrow> event list" where
  "events_of r = snd (snd r)"

text \<open>
  The events of the forwarding block when \<open>quote['outAmount']\<close> is \<open>out\<close>: nothing when no
  group chat is configured, else the send and, when the send raises, the logged error.
\<close>

definition forward_events :: "env \<Rightarrow> pystr \<Rightarrow> json \<Rightarrow> event list" where
  "forward_events env a out =
     (case GROUP_CHAT_ID env of
        None \<Rightarrow> []
      | Some chat_id \<Rightarrow>
          if chat_id = [] then []
          else SendMessage chat_id (forward_text env a out) (ustr ''Markdown'') #
               (case bot_send_message env chat_id (forward_text env a out) (ustr ''Markdown'') of
                  None \<Rightarrow> []
                | Some e \<Rightarrow> [LogError (ustr ''Failed to forward to group: '') e]))"

section \<open>The outcome of the quote request\<close>

text \<open>
  The quote call fails: \<open>requests.get\<close> raises, \<open>raise_for_status\<close> raises, or the body
  is not JSON. It succeeds with a body otherwise.
\<close>

definition quote_fails :: "env \<Rightarrow> pystr \<Rightarrow> bool" where
  "quote_fails env a =
     (case requests_get env quote_url (params a) of
        Inl e \<Rightarrow> True
      | Inr resp \<Rightarrow>
          (400 \<le> status_code resp \<and> status_code resp < 600) \<or> json_body resp = None)"

definition quote_succeeds :: "env \<Rightarrow> pystr \<Rightarrow> json \<Rightarrow> bool" where
  "quote_succeeds env a body =
     (case requests_get env quote_url (params a) of
        Inl e \<Rightarrow> False
      | Inr resp \<Rightarrow>
          \<not> (400 \<le> status_code resp \<and> status_code resp < 600) \<and> json_body resp = Some body)"

section \<open>Example inputs\<close>

definition example_address :: pystr where
  "example_address = ustr ''So11111111111111111111111111111111111111112''"

text \<open>The same address as a user may send it, with blanks and a line feed around it.\<close>

definition example_text :: pystr where
  "example_text = ustr ''  So11111111111111111111111111111111111111112 '' @ [LF]"

text \<open>The decimal digits of a natural number, as \<open>str\<close> of an \<open>int\<close> writes them.\<close>

fun decimal :: "nat \<Rightarrow> pystr" where
  "decimal n = (if n < 10 then [48 + n] else decimal (n div 10) @ [48 + n mod 10])"

declare decimal.simps [simp del]

text \<open>
  Python's formatting of a value inside an f-string, where it is simple: a \<open>str\<close> is
  itself, and \<open>None\<close>, a \<open>bool\<close> and an \<open>int\<close> are written as \<open>str\<close> writes them. The
  text Python gives for a \<open>float\<close>, a \<open>list\<close> or a \<open>dict\<close> is not modelled, and the
  examples format none of them: the value is left unspecified there.
\<close>

definition example_format :: "json \<Rightarrow> pystr" where
  "example_format j =
     (case j of
        JStr s \<Rightarrow> s
      | JNull \<Rightarrow> ustr ''None''
      | JBool b \<Rightarrow> (if b then ustr ''True'' else ustr ''False'')
      | JInt i \<Rightarrow> (if i < 0 then 45 # decimal (nat (- i)) else decimal (nat i))
      | _ \<Rightarrow> undefined)"

text \<open>
  An environment with a group chat configured, where both Telegram calls deliver and the
  HTTP request ends as given.
\<close>

definition example_env :: "py_exception + response \<Rightarrow> env" where
  "example_env http =
     \<lparr>GROUP_CHAT_ID = Some (ustr ''-1001''),
      requests_get = (\<lambda>url ps. http),
      bot_send_message = (\<lambda>chat_id text parse_mode. None),
      message_reply_text = (\<lambda>text. None),
      format_value = example_format\<rparr>"

definition example_quote :: json where
  "example_quote = JObj [(ustr ''outAmount'', JStr (ustr ''12345''))]"

definition http_ok :: "json \<Rightarrow> py_exception + response" where
  "http_ok body = Inr \<lparr>status_code = 200, json_body = Some body\<rparr>"

text \<open>The same environment, except that the forward to the group chat raises.\<close>

definition example_env_forward_fails :: env where
  "example_env_forward_fails =
     (example_env (http_ok example_quote))
       \<lparr>bot_send_message := \<lambda>chat_id text parse_mode. Some (TelegramError [])\<rparr>"

section \<open>Basic facts\<close>

lemma ustr_simps: "ustr [] = []" "ustr (c # cs) = of_char c # ustr cs"
  by (simp_all add: ustr_def)

section \<open>The validator against the specification's wording\<close>

lemma in_class_base58:
  "in_class [(CHR ''1'', CHR ''9''), (CHR ''A'', CHR ''H''), (CHR ''J'', CHR ''N''),
             (CHR ''P'', CHR ''Z''), (CHR ''a'', CHR ''k''), (CHR ''m'', CHR ''z'')] c
   \<longleftrightarrow> c \<in> set base58_alphabet"
  unfolding in_class_def base58_alphabet_def
  by (simp add: ustr_simps) arith

lemma is_valid_prefix:
  "is_valid_solana_address s \<longleftrightarrow>
     (\<exists>k. 32 \<le> k \<and> k \<le> 44 \<and> k \<le> length s \<and>
          list_all (\<lambda>c. c \<in> set base58_alphabet) (take k s) \<and>
          (drop k s = [] \<or> drop k s = [LF]))"
proof -
  have cls: "in_class [(CHR ''1'', CHR ''9''), (CHR ''A'', CHR ''H''), (CHR ''J'', CHR ''N''),
             (CHR ''P'', CHR ''Z''), (CHR ''a'', CHR ''k''), (CHR ''m'', CHR ''z'')]
             = (\<lambda>c. c \<in> set base58_alphabet)"
    by (rule ext) (rule in_class_base58)
  have mem: "\<And>k::nat. k \<in> set (rev [32 ..< Suc 44]) \<longleftrightarrow> 32 \<le> k \<and> k \<le> 44"
    by (simp only: set_rev set_upt atLeastLessThan_iff less_Suc_eq_le)
  show ?thesis
    unfolding is_valid_solana_address_def re_match_def base58_regex_def
    by (simp only: match_from.simps list_ex_iff cls mem Bex_def add_0 simp_thms conj_assoc)
qed

lemma LF_not_base58: "LF \<notin> set base58_alphabet"
  by (simp add: LF_def base58_alphabet_def ustr_simps)

lemma isspace_LF: "isspace LF"
  by (simp add: isspace_def LF_def)

lemma is_valid_exact:
  "is_valid_solana_address s \<longleftrightarrow>
     spec_is_valid s \<or> (\<exists>t. s = t @ [LF] \<and> spec_is_valid t)"
proof
  assume "is_valid_solana_address s"
  then obtain k where k: "32 \<le> k" "k \<le> 44" "k \<le> length s"
      "list_all (\<lambda>c. c \<in> set base58_alphabet) (take k s)"
      "drop k s = [] \<or> drop k s = [LF]"
    unfolding is_valid_prefix by blast
  from k(5) show "spec_is_valid s \<or> (\<exists>t. s = t @ [LF] \<and> spec_is_valid t)"
  proof
    assume "drop k s = []"
    with k(3) have "k = length s" by simp
    with k show ?thesis by (simp add: spec_is_valid_def)
  next
    assume d: "drop k s = [LF]"
    have "s = take k s @ drop k s" by simp
    with d have s: "s = take k s @ [LF]" by simp
    have "length (take k s) = k" using k(3) by simp
    with k have "spec_is_valid (take k s)" by (simp add: spec_is_valid_def)
    with s show ?thesis by blast
  qed
next
  assume "spec_is_valid s \<or> (\<exists>t. s = t @ [LF] \<and> spec_is_valid t)"
  then show "is_valid_solana_address s"
  proof
    assume "spec_is_valid s"
    then show ?thesis
      unfolding is_valid_prefix spec_is_valid_def
      by (intro exI [of _ "length s"]) simp
  next
    assume "\<exists>t. s = t @ [LF] \<and> spec_is_valid t"
    then obtain t where "s = t @ [LF]" "spec_is_valid t" by blast
    then show ?thesis
      unfolding is_valid_prefix spec_is_valid_def
      by (intro exI [of _ "length t"]) simp
  qed
qed

lemma spec_is_valid_last: "spec_is_valid s \<Longrightarrow> s \<noteq> [] \<and> last s \<noteq> LF"
proof -
  assume v: "spec_is_valid s"
  then have ne: "s \<noteq> []" by (auto simp: spec_is_valid_def)
  then have "last s \<in> set s" by simp
  with v have "last s \<in> set base58_alphabet"
    by (auto simp: spec_is_valid_def list_all_iff)
  with LF_not_base58 ne show ?thesis by auto
qed

lemma is_valid_no_trailing_LF:
  assumes "s = [] \<or> last s \<noteq> LF"
  shows "is_valid_solana_address s \<longleftrightarrow> spec_is_valid s"
  using assms unfolding is_valid_exact by auto


lemma strip_last: "strip t = [] \<or> \<not> isspace (last (strip t))"
proof (cases "strip t = []")
  case True
  then show ?thesis by simp
next
  case False
  let ?d = "dropWhile isspace (rev (dropWhile isspace t))"
  from False have ne: "?d \<noteq> []" by (simp add: strip_def)
  then have "\<not> isspace (hd ?d)" by (rule hd_dropWhile)
  moreover have "last (strip t) = hd ?d" using ne by (simp add: strip_def last_rev)
  ultimately show ?thesis by simp
qed


lemma is_valid_strip:
  "is_valid_solana_address (strip t) \<longleftrightarrow> spec_is_valid (strip t)"
proof (rule is_valid_no_trailing_LF)
  from strip_last [of t] isspace_LF
  show "strip t = [] \<or> last (strip t) \<noteq> LF" by metis
qed

lemma spec_valid_imp: "spec_is_valid s \<Longrightarrow> is_valid_solana_address s"
  unfolding is_valid_exact by simp

section \<open>The quote client and the handler, case by case\<close>

lemmas io_defs = io_return_def io_raise_def io_bind_def try_except_def perform_def
  outcome_of_def logger_error_def reply_text_def send_message_def http_get_def
  raise_for_status_def response_json_def processed_addresses_def processed_addresses_add_def

lemma swap_transport_error:
  "requests_get env quote_url (params a) = Inl e \<Longrightarrow>
   execute_jupiter_swap env a reg =
     (Inr JNull, reg, [HttpGet quote_url (params a), LogError (ustr ''Error getting Jupiter quote: '') e])"
  by (simp add: execute_jupiter_swap_def io_defs)

lemma swap_http_error:
  "requests_get env quote_url (params a) = Inr resp \<Longrightarrow>
   400 \<le> status_code resp \<and> status_code resp < 600 \<Longrightarrow>
   execute_jupiter_swap env a reg =
     (Inr JNull, reg, [HttpGet quote_url (params a),
        LogError (ustr ''Error getting Jupiter quote: '') (HTTPError (status_code resp))])"
  by (simp add: execute_jupiter_swap_def io_defs)

lemma swap_bad_body:
  "requests_get env quote_url (params a) = Inr resp \<Longrightarrow>
   \<not> (400 \<le> status_code resp \<and> status_code resp < 600) \<Longrightarrow> json_body resp = None \<Longrightarrow>
   execute_jupiter_swap env a reg =
     (Inr JNull, reg, [HttpGet quote_url (params a),
        LogError (ustr ''Error getting Jupiter quote: '') JSONDecodeError])"
  by (simp add: execute_jupiter_swap_def io_defs)

lemma swap_ok:
  "requests_get env quote_url (params a) = Inr resp \<Longrightarrow>
   \<not> (400 \<le> status_code resp \<and> status_code resp < 600) \<Longrightarrow> json_body resp = Some j \<Longrightarrow>
   execute_jupiter_swap env a reg = (Inr j, reg, [HttpGet quote_url (params a)])"
  by (simp add: execute_jupiter_swap_def io_defs)

lemma swap_shape:
  "\<exists>j evs. execute_jupiter_swap env a reg = (Inr j, reg, HttpGet quote_url (params a) # evs)"
proof (cases "requests_get env quote_url (params a)")
  case (Inl e)
  then show ?thesis by (simp add: swap_transport_error)
next
  case (Inr resp)
  show ?thesis
  proof (cases "400 \<le> status_code resp \<and> status_code resp < 600")
    case True
    with Inr show ?thesis by (simp add: swap_http_error)
  next
    case False
    with Inr show ?thesis by (cases "json_body resp") (simp_all add: swap_bad_body swap_ok)
  qed
qed

lemma handle_invalid:
  "\<not> is_valid_solana_address (strip text) \<Longrightarrow>
   handle_message env text reg =
     (outcome_of (message_reply_text env invalid_text), reg, [ReplyText invalid_text])"
  by (simp add: handle_message_def Let_def reply_text_def perform_def)

lemma handle_seen:
  "is_valid_solana_address (strip text) \<Longrightarrow> strip text \<in> reg \<Longrightarrow>
   handle_message env text reg =
     (outcome_of (message_reply_text env already_text), reg, [ReplyText already_text])"
  by (simp add: handle_message_def Let_def reply_text_def perform_def io_bind_def processed_addresses_def)

lemma handle_fresh_falsy:
  "is_valid_solana_address (strip text) \<Longrightarrow> strip text \<notin> reg \<Longrightarrow>
   execute_jupiter_swap env (strip text) (insert (strip text) reg)
     = (Inr q, insert (strip text) reg, evq) \<Longrightarrow>
   \<not> truthy q \<Longrightarrow>
   handle_message env text reg =
     (outcome_of (message_reply_text env failed_text), insert (strip text) reg,
      RegistryAdd (strip text) # evq @ [ReplyText failed_text])"
  by (simp add: handle_message_def Let_def reply_text_def perform_def io_bind_def
      processed_addresses_def processed_addresses_add_def)

lemma forward_ok:
  "map_of kvs (ustr ''outAmount'') = Some out \<Longrightarrow>
   forward_to_group env a (JObj kvs) reg = (Inr (), reg, forward_events env a out)"
  by (simp add: forward_to_group_def forward_events_def io_defs split: option.splits)

lemma handle_fresh_ok:
  "is_valid_solana_address (strip text) \<Longrightarrow> strip text \<notin> reg \<Longrightarrow>
   execute_jupiter_swap env (strip text) (insert (strip text) reg)
     = (Inr (JObj kvs), insert (strip text) reg, evq) \<Longrightarrow>
   map_of kvs (ustr ''outAmount'') = Some out \<Longrightarrow>
   handle_message env text reg =
     (outcome_of (message_reply_text env (confirm_text env (strip text) out)),
      insert (strip text) reg,
      RegistryAdd (strip text) # evq @ forward_events env (strip text) out @
        [ReplyText (confirm_text env (strip text) out)])"
proof -
  assume v: "is_valid_solana_address (strip text)" and u: "strip text \<notin> reg"
    and q: "execute_jupiter_swap env (strip text) (insert (strip text) reg)
     = (Inr (JObj kvs), insert (strip text) reg, evq)"
    and k: "map_of kvs (ustr ''outAmount'') = Some out"
  from k have ne: "kvs \<noteq> []" by auto
  show ?thesis
    using v u q k ne
    by (simp add: handle_message_def Let_def reply_text_def perform_def io_bind_def io_return_def
      processed_addresses_def processed_addresses_add_def forward_ok)
qed

lemma swap_fails:
  assumes "quote_fails env a"
  shows "\<exists>e. execute_jupiter_swap env a reg =
     (Inr JNull, reg, [HttpGet quote_url (params a), LogError (ustr ''Error getting Jupiter quote: '') e])"
proof (cases "requests_get env quote_url (params a)")
  case (Inl e)
  then show ?thesis by (simp add: swap_transport_error)
next
  case (Inr resp)
  show ?thesis
  proof (cases "400 \<le> status_code resp \<and> status_code resp < 600")
    case True
    with Inr show ?thesis by (simp add: swap_http_error)
  next
    case False
    with Inr assms have "json_body resp = None" by (simp add: quote_fails_def)
    with Inr False show ?thesis by (simp add: swap_bad_body)
  qed
qed

lemma swap_succeeds:
  assumes "quote_succeeds env a body"
  shows "execute_jupiter_swap env a reg = (Inr body, reg, [HttpGet quote_url (params a)])"
proof (cases "requests_get env quote_url (params a)")
  case (Inl e)
  with assms show ?thesis by (simp add: quote_succeeds_def)
next
  case (Inr resp)
  with assms show ?thesis by (simp add: quote_succeeds_def swap_ok)
qed

lemma fails_or_succeeds: "quote_fails env a \<or> (\<exists>body. quote_succeeds env a body)"
  by (auto simp: quote_fails_def quote_succeeds_def split: sum.splits)

lemma obs_simps:
  "replies [] = []" "forwards [] = []" "quote_calls [] = []" "insertions [] = []"
  "replies (ev # evs) = reply_of ev @ replies evs"
  "forwards (ev # evs) = forward_of ev @ forwards evs"
  "quote_calls (ev # evs) = quote_call_of ev @ quote_calls evs"
  "insertions (ev # evs) = insertion_of ev @ insertions evs"
  "replies (evs @ evs') = replies evs @ replies evs'"
  "forwards (evs @ evs') = forwards evs @ forwards evs'"
  "quote_calls (evs @ evs') = quote_calls evs @ quote_calls evs'"
  "insertions (evs @ evs') = insertions evs @ insertions evs'"
  by (simp_all add: replies_def forwards_def quote_calls_def insertions_def)

lemma run_simps:
  "result_of (res, reg, evs) = res" "registry_after (res, reg, evs) = reg"
  "events_of (res, reg, evs) = evs"
  by (simp_all add: result_of_def registry_after_def events_of_def)

lemma forward_events_obs:
  "replies (forward_events env a out) = []"
  "insertions (forward_events env a out) = []"
  "quote_calls (forward_events env a out) = []"
  "forwards (forward_events env a out) =
     (case GROUP_CHAT_ID env of
        None \<Rightarrow> []
      | Some chat_id \<Rightarrow> if chat_id = [] then [] else [(chat_id, forward_text env a out)])"
  by (simp_all add: forward_events_def obs_simps split: option.splits)

text \<open>Whatever the quote is, the forwarding block returns, and neither replies nor touches the set.\<close>

lemma forward_shape:
  "\<exists>evs. forward_to_group env a q reg = (Inr (), reg, evs) \<and>
         insertions evs = [] \<and> quote_calls evs = [] \<and> replies evs = []"
proof (cases "GROUP_CHAT_ID env")
  case None
  then show ?thesis by (simp add: forward_to_group_def io_return_def obs_simps)
next
  case (Some chat_id)
  show ?thesis
  proof (cases "chat_id = []")
    case True
    with Some show ?thesis by (simp add: forward_to_group_def io_return_def obs_simps)
  next
    case False
    have g: "(\<exists>e. getitem q (ustr ''outAmount'') reg = (Inl e, reg, [])) \<or>
             (\<exists>v. getitem q (ustr ''outAmount'') reg = (Inr v, reg, []))"
      by (cases q) (auto simp: io_raise_def io_return_def split: option.splits)
    then show ?thesis
    proof
      assume "\<exists>e. getitem q (ustr ''outAmount'') reg = (Inl e, reg, [])"
      then obtain e where "getitem q (ustr ''outAmount'') reg = (Inl e, reg, [])" by blast
      with Some False show ?thesis
        by (simp add: forward_to_group_def try_except_def io_bind_def logger_error_def
            perform_def obs_simps)
    next
      assume "\<exists>v. getitem q (ustr ''outAmount'') reg = (Inr v, reg, [])"
      then obtain v where "getitem q (ustr ''outAmount'') reg = (Inr v, reg, [])" by blast
      with Some False show ?thesis
        by (simp add: forward_to_group_def try_except_def io_bind_def logger_error_def
            send_message_def outcome_of_def perform_def obs_simps split: option.splits)
    qed
  qed
qed

lemma final_reply_shape:
  "\<exists>res evs. io_bind (getitem q (ustr ''outAmount''))
        (\<lambda>out. reply_text env (confirm_text env a out)) reg = (res, reg, evs) \<and>
      insertions evs = [] \<and> quote_calls evs = []"
  by (cases q)
    (auto simp: io_bind_def io_raise_def io_return_def reply_text_def perform_def obs_simps
      split: option.splits)

lemma handle_fresh_shape:
  assumes "is_valid_solana_address (strip text)" and "strip text \<notin> reg"
  shows "\<exists>res evs. handle_message env text reg =
      (res, insert (strip text) reg,
       RegistryAdd (strip text) # HttpGet quote_url (params (strip text)) # evs) \<and>
      insertions evs = [] \<and> quote_calls evs = []"
proof -
  let ?a = "strip text" and ?reg = "insert (strip text) reg"
  from fails_or_succeeds [of env ?a] show ?thesis
  proof
    assume "quote_fails env ?a"
    from swap_fails [OF this, of ?reg] obtain e where
      q: "execute_jupiter_swap env ?a ?reg =
        (Inr JNull, ?reg, [HttpGet quote_url (params ?a), LogError (ustr ''Error getting Jupiter quote: '') e])"
      by blast
    have "\<not> truthy JNull" by simp
    from handle_fresh_falsy [OF assms q this] show ?thesis by (simp add: obs_simps)
  next
    assume "\<exists>body. quote_succeeds env ?a body"
    then obtain body where "quote_succeeds env ?a body" by blast
    from swap_succeeds [OF this, of ?reg]
    have q: "execute_jupiter_swap env ?a ?reg = (Inr body, ?reg, [HttpGet quote_url (params ?a)])" .
    show ?thesis
    proof (cases "truthy body")
      case False
      from handle_fresh_falsy [OF assms q False] show ?thesis by (simp add: obs_simps)
    next
      case True
      from forward_shape [of env ?a body ?reg] obtain fevs where
        f: "forward_to_group env ?a body ?reg = (Inr (), ?reg, fevs)"
           "insertions fevs = []" "quote_calls fevs = []" by blast
      from final_reply_shape [of body env ?a ?reg] obtain res revs where
        r: "io_bind (getitem body (ustr ''outAmount''))
              (\<lambda>out. reply_text env (confirm_text env ?a out)) ?reg = (res, ?reg, revs)"
           "insertions revs = []" "quote_calls revs = []" by blast
      have "handle_message env text reg =
          (res, ?reg, RegistryAdd ?a # HttpGet quote_url (params ?a) # fevs @ revs)"
        using assms True q f(1) r(1)
        by (simp add: handle_message_def Let_def processed_addresses_def
            processed_addresses_add_def io_bind_def [of "\<lambda>reg. (Inr reg, reg, [])"]
            io_bind_def [of "\<lambda>reg. (Inr (), insert (strip text) reg, [RegistryAdd (strip text)])"]
            io_bind_def [of "execute_jupiter_swap env (strip text)"]
            io_bind_def [of "forward_to_group env (strip text) body"])
      with f r show ?thesis by (simp add: obs_simps)
    qed
  qed
qed

section \<open>Facts about the examples\<close>

lemma example_strip: "strip example_text = example_address"
  by (simp add: example_text_def example_address_def ustr_simps strip_def isspace_def LF_def)

lemma example_spec_valid: "spec_is_valid example_address"
  by (simp add: example_address_def spec_is_valid_def base58_alphabet_def ustr_simps)

lemma example_valid: "is_valid_solana_address (strip example_text)"
  by (simp add: example_strip example_spec_valid spec_valid_imp)

lemma example_env_simps:
  "GROUP_CHAT_ID (example_env http) = Some (ustr ''-1001'')"
  "requests_get (example_env http) url ps = http"
  "bot_send_message (example_env http) c t p = None"
  "message_reply_text (example_env http) t = None"
  "format_value (example_env http) = example_format"
  by (simp_all add: example_env_def)

lemma example_quote_ok: "quote_succeeds (example_env (http_ok body)) a body"
  by (simp add: quote_succeeds_def http_ok_def example_env_simps)

lemma hello_invalid: "\<not> is_valid_solana_address (strip (ustr ''hello''))"
  unfolding is_valid_strip
  by (simp add: spec_is_valid_def strip_def ustr_simps isspace_def)

section \<open>The claims\<close>

text \<open>
  C1: for every input string of the validator, that is, for every trimmed string (one
  that \<open>strip\<close> leaves as it is, which is all the handler passes), the validator returns
  true if and only if the length is between 32 and 44 and every character is in the
  base-58 alphabet; in particular it returns false when the length is outside that range
  or some character is outside the alphabet.
\<close>

theorem C1_validator_on_trimmed_strings:
  assumes "strip s = s"
  shows "(is_valid_solana_address s \<longleftrightarrow>
            32 \<le> length s \<and> length s \<le> 44 \<and> list_all (\<lambda>c. c \<in> set base58_alphabet) s) \<and>
         (is_valid_solana_address s \<longleftrightarrow> spec_is_valid s) \<and>
         (length s < 32 \<or> 44 < length s \<or> list_ex (\<lambda>c. c \<notin> set base58_alphabet) s
            \<longrightarrow> \<not> is_valid_solana_address s)"
proof -
  from is_valid_strip [of s] assms
  have eq: "is_valid_solana_address s \<longleftrightarrow> spec_is_valid s" by simp
  show ?thesis
    unfolding eq
    by (auto simp: spec_is_valid_def list_all_iff list_ex_iff)
qed

theorem C1_witness:
  "is_valid_solana_address (ustr ''So11111111111111111111111111111111111111112'') \<and>
   \<not> is_valid_solana_address (ustr ''short'') \<and>
   \<not> is_valid_solana_address (ustr ''0xAbC11111111111111111111111111111111'')"
proof -
  have t1: "strip (ustr ''So11111111111111111111111111111111111111112'')
      = ustr ''So11111111111111111111111111111111111111112''"
    by (simp add: ustr_simps strip_def isspace_def)
  have t2: "strip (ustr ''short'') = ustr ''short''"
    by (simp add: ustr_simps strip_def isspace_def)
  have t3: "strip (ustr ''0xAbC11111111111111111111111111111111'')
      = ustr ''0xAbC11111111111111111111111111111111''"
    by (simp add: ustr_simps strip_def isspace_def)
  have v1: "spec_is_valid (ustr ''So11111111111111111111111111111111111111112'')"
    by (simp add: spec_is_valid_def base58_alphabet_def ustr_simps)
  have v2: "\<not> spec_is_valid (ustr ''short'')"
    by (simp add: spec_is_valid_def ustr_simps)
  have v3: "\<not> spec_is_valid (ustr ''0xAbC11111111111111111111111111111111'')"
    by (simp add: spec_is_valid_def base58_alphabet_def ustr_simps)
  from C1_validator_on_trimmed_strings [OF t1] C1_validator_on_trimmed_strings [OF t2]
    C1_validator_on_trimmed_strings [OF t3] v1 v2 v3
  show ?thesis by blast
qed

text \<open>
  Outside that domain the two differ in one way only (\<open>is_valid_exact\<close>): \<open>$\<close> also
  matches before a final line feed, so an untrimmed string of 32 ones and \<open>'\n'\<close> is
  accepted.
\<close>

lemma trailing_line_feed_accepted:
  "is_valid_solana_address (ustr ''11111111111111111111111111111111'' @ [LF]) \<and>
   \<not> spec_is_valid (ustr ''11111111111111111111111111111111'' @ [LF])"
proof
  have "spec_is_valid (ustr ''11111111111111111111111111111111'')"
    by (simp add: spec_is_valid_def base58_alphabet_def ustr_simps)
  then show "is_valid_solana_address (ustr ''11111111111111111111111111111111'' @ [LF])"
    unfolding is_valid_exact by blast
  show "\<not> spec_is_valid (ustr ''11111111111111111111111111111111'' @ [LF])"
    by (simp add: spec_is_valid_def base58_alphabet_def ustr_simps LF_def)
qed

text \<open>
  C5: when the stripped text of a message fails the validation, the handler makes one
  \<open>reply_text\<close> call, with the rejection message, and ends: the set of processed
  addresses is unchanged, nothing is inserted and no quote request is issued. The
  handler returns normally unless the reply call itself raises.
\<close>

theorem C5_invalid_rejected:
  assumes "\<not> is_valid_solana_address (strip text)"
  shows "events_of (handle_message env text reg) = [ReplyText invalid_text] \<and>
         registry_after (handle_message env text reg) = reg \<and>
         insertions (events_of (handle_message env text reg)) = [] \<and>
         quote_calls (events_of (handle_message env text reg)) = [] \<and>
         result_of (handle_message env text reg) =
           outcome_of (message_reply_text env invalid_text)"
  by (simp add: handle_invalid [OF assms] run_simps obs_simps)

theorem C5_witness:
  "events_of (handle_message (example_env (http_ok example_quote)) (ustr ''hello'') {})
     = [ReplyText invalid_text] \<and>
   registry_after (handle_message (example_env (http_ok example_quote)) (ustr ''hello'') {}) = {} \<and>
   quote_calls (events_of (handle_message (example_env (http_ok example_quote)) (ustr ''hello'') {})) = []"
  using C5_invalid_rejected [OF hello_invalid, of "example_env (http_ok example_quote)" "{}"]
  by (simp add: obs_simps)

text \<open>
  C3: for a valid address that is not yet in the set, when the quote request succeeds
  with an object that has the field \<open>outAmount\<close>, the handler makes exactly one
  \<open>reply_text\<close> call, whose text contains the formatted output amount, inserts the
  address exactly once, issues one quote request, and calls \<open>send_message\<close> exactly once
  when \<open>GROUP_CHAT_ID\<close> is set and not empty, and not at all otherwise.
\<close>

theorem C3_success_fan_out:
  assumes "is_valid_solana_address (strip text)" and "strip text \<notin> reg"
    and "quote_succeeds env (strip text) (JObj kvs)"
    and "map_of kvs (ustr ''outAmount'') = Some out"
  shows "replies (events_of (handle_message env text reg))
           = [ustr ''Processing swap for address: '' @ strip text @ [LF] @
              ustr ''Quote received: '' @ format_value env out @ ustr '' tokens''] \<and>
         insertions (events_of (handle_message env text reg)) = [strip text] \<and>
         registry_after (handle_message env text reg) = insert (strip text) reg \<and>
         quote_calls (events_of (handle_message env text reg))
           = [(quote_url, params (strip text))] \<and>
         forwards (events_of (handle_message env text reg))
           = (case GROUP_CHAT_ID env of
                None \<Rightarrow> []
              | Some chat_id \<Rightarrow>
                  if chat_id = [] then []
                  else [(chat_id, forward_text env (strip text) out)]) \<and>
         result_of (handle_message env text reg)
           = outcome_of (message_reply_text env (confirm_text env (strip text) out))"
proof -
  from swap_succeeds [OF assms(3), of "insert (strip text) reg"]
  have q: "execute_jupiter_swap env (strip text) (insert (strip text) reg) =
      (Inr (JObj kvs), insert (strip text) reg, [HttpGet quote_url (params (strip text))])" .
  show ?thesis
    unfolding handle_fresh_ok [OF assms(1,2) q assms(4)]
    by (simp add: run_simps obs_simps forward_events_obs confirm_text_def)
qed

theorem C3_witness:
  "replies (events_of (handle_message (example_env (http_ok example_quote)) example_text {}))
     = [ustr ''Processing swap for address: So11111111111111111111111111111111111111112'' @
        [LF] @ ustr ''Quote received: 12345 tokens''] \<and>
   insertions (events_of (handle_message (example_env (http_ok example_quote)) example_text {}))
     = [example_address] \<and>
   map fst (forwards (events_of (handle_message (example_env (http_ok example_quote)) example_text {})))
     = [ustr ''-1001''] \<and>
   forwards (events_of (handle_message
       ((example_env (http_ok example_quote))\<lparr>GROUP_CHAT_ID := None\<rparr>) example_text {})) = []"
proof -
  have k: "map_of [(ustr ''outAmount'', JStr (ustr ''12345''))] (ustr ''outAmount'')
      = Some (JStr (ustr ''12345''))" by simp
  have u: "strip example_text \<notin> {}" by simp
  have q1: "quote_succeeds (example_env (http_ok example_quote)) (strip example_text)
      (JObj [(ustr ''outAmount'', JStr (ustr ''12345''))])"
    using example_quote_ok [of example_quote] by (simp add: example_quote_def)
  have q2: "quote_succeeds ((example_env (http_ok example_quote))\<lparr>GROUP_CHAT_ID := None\<rparr>)
      (strip example_text) (JObj [(ustr ''outAmount'', JStr (ustr ''12345''))])"
    using q1 by (simp add: quote_succeeds_def)
  from C3_success_fan_out [OF example_valid u q1 k] C3_success_fan_out [OF example_valid u q2 k]
  show ?thesis
    by (simp add: example_strip example_env_simps example_format_def example_address_def
        ustr_simps)
qed


text \<open>
  C4: for a valid address that is not yet in the set, when the quote request fails, the
  handler makes exactly one \<open>reply_text\<close> call, with the generic failure message, and no
  \<open>send_message\<close> call, and the address is in the set afterwards; a later message with
  the same address, in any environment, gets the "already processed" reply and causes
  no quote request.
\<close>

theorem C4_quote_failure:
  assumes "is_valid_solana_address (strip text)" and "strip text \<notin> reg"
    and "quote_fails env (strip text)"
    and "strip text' = strip text"
  shows "replies (events_of (handle_message env text reg)) = [failed_text] \<and>
         forwards (events_of (handle_message env text reg)) = [] \<and>
         strip text \<in> registry_after (handle_message env text reg) \<and>
         replies (events_of (handle_message env' text'
             (registry_after (handle_message env text reg)))) = [already_text] \<and>
         quote_calls (events_of (handle_message env' text'
             (registry_after (handle_message env text reg)))) = []"
proof -
  from swap_fails [OF assms(3), of "insert (strip text) reg"] obtain e where
    q: "execute_jupiter_swap env (strip text) (insert (strip text) reg) =
      (Inr JNull, insert (strip text) reg,
       [HttpGet quote_url (params (strip text)),
        LogError (ustr ''Error getting Jupiter quote: '') e])" by blast
  have f: "\<not> truthy JNull" by simp
  note first = handle_fresh_falsy [OF assms(1,2) q f]
  have v': "is_valid_solana_address (strip text')" using assms(1,4) by simp
  have s': "strip text' \<in> insert (strip text) reg" using assms(4) by simp
  note second = handle_seen [OF v' s', of env']
  show ?thesis
    unfolding first run_simps second
    by (simp add: obs_simps)
qed

theorem C4_witness:
  "replies (events_of (handle_message (example_env (Inl (RequestException []))) example_text {}))
     = [failed_text] \<and>
   forwards (events_of (handle_message (example_env (Inl (RequestException []))) example_text {}))
     = [] \<and>
   replies (events_of (handle_message (example_env (http_ok example_quote)) example_address
       (registry_after (handle_message (example_env (Inl (RequestException []))) example_text {}))))
     = [already_text]"
proof -
  have u: "strip example_text \<notin> {}" by simp
  have f: "quote_fails (example_env (Inl (RequestException []))) (strip example_text)"
    by (simp add: quote_fails_def example_env_simps)
  have "strip example_address = example_address"
    by (simp add: example_address_def ustr_simps strip_def isspace_def)
  then have s: "strip example_address = strip example_text" by (simp add: example_strip)
  from C4_quote_failure [OF example_valid u f s, of "example_env (http_ok example_quote)"]
  show ?thesis by simp
qed

text \<open>
  C6: in every handling of a valid address that is not yet in the set, whatever the
  environment does, the insertion into the set is the first event and the quote request
  the second, and no other insertion or request follows; so when the same address is
  handled again right afterwards, that second handling only replies "already processed"
  and issues no quote request.
\<close>

theorem C6_marked_before_quote:
  assumes "is_valid_solana_address (strip text)" and "strip text \<notin> reg"
    and "strip text' = strip text"
  shows "(\<exists>evs. events_of (handle_message env text reg) =
            RegistryAdd (strip text) # HttpGet quote_url (params (strip text)) # evs \<and>
            insertions evs = [] \<and> quote_calls evs = []) \<and>
         events_of (handle_message env' text' (registry_after (handle_message env text reg)))
           = [ReplyText already_text] \<and>
         quote_calls (events_of (handle_message env' text'
             (registry_after (handle_message env text reg)))) = []"
proof -
  from handle_fresh_shape [OF assms(1,2), of env] obtain res evs where
    first: "handle_message env text reg =
      (res, insert (strip text) reg,
       RegistryAdd (strip text) # HttpGet quote_url (params (strip text)) # evs)"
    and evs: "insertions evs = []" "quote_calls evs = []" by blast
  have v': "is_valid_solana_address (strip text')" using assms(1,3) by simp
  have s': "strip text' \<in> insert (strip text) reg" using assms(3) by simp
  note second = handle_seen [OF v' s', of env']
  show ?thesis
    unfolding first run_simps second
    using evs by (simp add: obs_simps)
qed

theorem C6_witness:
  "take 2 (events_of (handle_message (example_env (http_ok example_quote)) example_text {}))
     = [RegistryAdd example_address, HttpGet quote_url (params example_address)] \<and>
   events_of (handle_message (example_env (http_ok example_quote)) example_text
       (registry_after (handle_message (example_env (http_ok example_quote)) example_text {})))
     = [ReplyText already_text]"
proof -
  have u: "strip example_text \<notin> {}" by simp
  from C6_marked_before_quote [OF example_valid u refl,
      of "example_env (http_ok example_quote)" "example_env (http_ok example_quote)"]
  show ?thesis by (auto simp: example_strip)
qed

text \<open>
  C8: whatever the output address and the environment, the client issues exactly one
  request, to the fixed URL, with exactly four parameters: \<open>inputMint\<close> the wrapped
  native mint, \<open>outputMint\<close> the caller's address, \<open>amount\<close> the string "10000000"
  and \<open>slippageBps\<close> the integer 1500.
\<close>

theorem C8_quote_request_parameters:
  "quote_calls (events_of (execute_jupiter_swap env token_address reg)) =
     [(ustr ''https://quote-api.jup.ag/v6/quote'',
       [(ustr ''inputMint'', JStr (ustr ''So11111111111111111111111111111111111111112'')),
        (ustr ''outputMint'', JStr token_address),
        (ustr ''amount'', JStr (ustr ''10000000'')),
        (ustr ''slippageBps'', JInt 1500)])]"
proof -
  from fails_or_succeeds [of env token_address] show ?thesis
  proof
    assume "quote_fails env token_address"
    from swap_fails [OF this, of reg] obtain e where
      "execute_jupiter_swap env token_address reg =
        (Inr JNull, reg, [HttpGet quote_url (params token_address),
          LogError (ustr ''Error getting Jupiter quote: '') e])" by blast
    then show ?thesis by (simp add: run_simps obs_simps quote_url_def params_def)
  next
    assume "\<exists>body. quote_succeeds env token_address body"
    then obtain body where "quote_succeeds env token_address body" by blast
    from swap_succeeds [OF this, of reg] show ?thesis
      by (simp add: run_simps obs_simps quote_url_def params_def)
  qed
qed

text \<open>
  C7, as amended: for every output address the quote client returns and never raises,
  and leaves the set alone. It returns \<open>None\<close>, after logging the cause, when the request
  raises, when the status is one that \<open>raise_for_status\<close> rejects (400 to 599), and when
  the body is not JSON; otherwise it returns the parsed body. (The claim says "non-2xx"
  where the code rejects 4xx and 5xx only: see the counterexample below.)
\<close>

theorem C7_quote_client_never_raises:
  "(\<exists>j. result_of (execute_jupiter_swap env a reg) = Inr j) \<and>
   registry_after (execute_jupiter_swap env a reg) = reg \<and>
   (\<forall>e. requests_get env quote_url (params a) = Inl e \<longrightarrow>
      result_of (execute_jupiter_swap env a reg) = Inr JNull \<and>
      events_of (execute_jupiter_swap env a reg) =
        [HttpGet quote_url (params a), LogError (ustr ''Error getting Jupiter quote: '') e]) \<and>
   (\<forall>resp. requests_get env quote_url (params a) = Inr resp \<and>
        400 \<le> status_code resp \<and> status_code resp < 600 \<longrightarrow>
      result_of (execute_jupiter_swap env a reg) = Inr JNull \<and>
      events_of (execute_jupiter_swap env a reg) =
        [HttpGet quote_url (params a),
         LogError (ustr ''Error getting Jupiter quote: '') (HTTPError (status_code resp))]) \<and>
   (\<forall>resp. requests_get env quote_url (params a) = Inr resp \<and>
        \<not> (400 \<le> status_code resp \<and> status_code resp < 600) \<and> json_body resp = None \<longrightarrow>
      result_of (execute_jupiter_swap env a reg) = Inr JNull \<and>
      events_of (execute_jupiter_swap env a reg) =
        [HttpGet quote_url (params a),
         LogError (ustr ''Error getting Jupiter quote: '') JSONDecodeError]) \<and>
   (\<forall>resp body. requests_get env quote_url (params a) = Inr resp \<and>
        \<not> (400 \<le> status_code resp \<and> status_code resp < 600) \<and>
        json_body resp = Some body \<longrightarrow>
      result_of (execute_jupiter_swap env a reg) = Inr body \<and>
      events_of (execute_jupiter_swap env a reg) = [HttpGet quote_url (params a)])"
proof -
  have total: "\<exists>j. result_of (execute_jupiter_swap env a reg) = Inr j"
    and same: "registry_after (execute_jupiter_swap env a reg) = reg"
    using swap_shape [of env a reg] by (auto simp: run_simps)
  show ?thesis
    using total same
    by (auto simp: swap_transport_error swap_http_error swap_bad_body swap_ok run_simps)
qed

theorem C7_witness:
  "result_of (execute_jupiter_swap
      (example_env (Inr \<lparr>status_code = 503, json_body = Some example_quote\<rparr>))
      example_address {}) = Inr JNull \<and>
   result_of (execute_jupiter_swap (example_env (Inl (RequestException []))) example_address {})
     = Inr JNull \<and>
   result_of (execute_jupiter_swap
      (example_env (Inr \<lparr>status_code = 200, json_body = None\<rparr>)) example_address {})
     = Inr JNull \<and>
   result_of (execute_jupiter_swap (example_env (http_ok example_quote)) example_address {})
     = Inr example_quote"
  using
    C7_quote_client_never_raises [of
      "example_env (Inr \<lparr>status_code = 503, json_body = Some example_quote\<rparr>)"
      example_address "{}"]
    C7_quote_client_never_raises [of "example_env (Inl (RequestException []))" example_address "{}"]
    C7_quote_client_never_raises [of
      "example_env (Inr \<lparr>status_code = 200, json_body = None\<rparr>)" example_address "{}"]
    C7_quote_client_never_raises [of "example_env (http_ok example_quote)" example_address "{}"]
  by (simp add: example_env_simps http_ok_def)

text \<open>
  C7 as stated fails: a response with status 300, which is not a 2xx status, and a JSON
  body is returned as a success, not as a failure result.
\<close>

theorem C7_redirect_status_counterexample:
  "\<not> (200 \<le> status_code \<lparr>status_code = 300, json_body = Some example_quote\<rparr> \<and>
      status_code \<lparr>status_code = 300, json_body = Some example_quote\<rparr> < 300) \<and>
   result_of (execute_jupiter_swap
      (example_env (Inr \<lparr>status_code = 300, json_body = Some example_quote\<rparr>))
      example_address {}) = Inr example_quote \<and>
   example_quote \<noteq> JNull \<and> truthy example_quote"
  by (simp add: swap_ok example_env_simps run_simps example_quote_def)

text \<open>
  C9: for a valid, unseen address and a successful quote that has the field
  \<open>outAmount\<close>, when a group chat is configured and the \<open>send_message\<close> call raises, the
  exception is logged and not raised again: the handler goes on to the one
  \<open>reply_text\<close> call, and its replies, its result and the set afterwards are those of the
  same run in which the forward is delivered.
\<close>

theorem C9_forward_failure_swallowed:
  assumes "is_valid_solana_address (strip text)" and "strip text \<notin> reg"
    and "quote_succeeds env (strip text) (JObj kvs)"
    and "map_of kvs (ustr ''outAmount'') = Some out"
    and "GROUP_CHAT_ID env = Some chat_id" and "chat_id \<noteq> []"
    and "bot_send_message env chat_id (forward_text env (strip text) out) (ustr ''Markdown'')
           = Some e"
  shows "events_of (handle_message env text reg) =
           [RegistryAdd (strip text), HttpGet quote_url (params (strip text)),
            SendMessage chat_id (forward_text env (strip text) out) (ustr ''Markdown''),
            LogError (ustr ''Failed to forward to group: '') e,
            ReplyText (confirm_text env (strip text) out)] \<and>
         result_of (handle_message env text reg) =
           outcome_of (message_reply_text env (confirm_text env (strip text) out)) \<and>
         replies (events_of (handle_message env text reg)) =
           replies (events_of (handle_message
             (env\<lparr>bot_send_message := \<lambda>chat_id text parse_mode. None\<rparr>) text reg)) \<and>
         result_of (handle_message env text reg) =
           result_of (handle_message
             (env\<lparr>bot_send_message := \<lambda>chat_id text parse_mode. None\<rparr>) text reg) \<and>
         registry_after (handle_message env text reg) =
           registry_after (handle_message
             (env\<lparr>bot_send_message := \<lambda>chat_id text parse_mode. None\<rparr>) text reg)"
proof -
  let ?env' = "env\<lparr>bot_send_message := \<lambda>chat_id text parse_mode. None\<rparr>"
  let ?a = "strip text"
  from swap_succeeds [OF assms(3), of "insert ?a reg"]
  have q: "execute_jupiter_swap env ?a (insert ?a reg) =
      (Inr (JObj kvs), insert ?a reg, [HttpGet quote_url (params ?a)])" .
  have "quote_succeeds ?env' ?a (JObj kvs)"
    using assms(3) by (simp add: quote_succeeds_def)
  from swap_succeeds [OF this, of "insert ?a reg"]
  have q': "execute_jupiter_swap ?env' ?a (insert ?a reg) =
      (Inr (JObj kvs), insert ?a reg, [HttpGet quote_url (params ?a)])" .
  have same: "confirm_text ?env' ?a out = confirm_text env ?a out"
    "message_reply_text ?env' = message_reply_text env"
    by (simp_all add: confirm_text_def)
  show ?thesis
    unfolding handle_fresh_ok [OF assms(1,2) q assms(4)]
      handle_fresh_ok [OF assms(1,2) q' assms(4)] run_simps same
    using assms(5,6,7)
    by (simp add: obs_simps forward_events_obs forward_events_def)
qed

theorem C9_witness:
  "replies (events_of (handle_message example_env_forward_fails example_text {})) =
     [ustr ''Processing swap for address: So11111111111111111111111111111111111111112'' @
      [LF] @ ustr ''Quote received: 12345 tokens''] \<and>
   result_of (handle_message example_env_forward_fails example_text {}) = Inr () \<and>
   replies (events_of (handle_message example_env_forward_fails example_text {})) =
     replies (events_of (handle_message (example_env (http_ok example_quote)) example_text {}))"
proof -
  have k: "map_of [(ustr ''outAmount'', JStr (ustr ''12345''))] (ustr ''outAmount'')
      = Some (JStr (ustr ''12345''))" by simp
  have u: "strip example_text \<notin> {}" by simp
  have q: "quote_succeeds example_env_forward_fails (strip example_text)
      (JObj [(ustr ''outAmount'', JStr (ustr ''12345''))])"
    using example_quote_ok [of example_quote]
    by (simp add: example_quote_def quote_succeeds_def example_env_forward_fails_def)
  have g: "GROUP_CHAT_ID example_env_forward_fails = Some (ustr ''-1001'')"
    by (simp add: example_env_forward_fails_def example_env_simps)
  have n: "ustr ''-1001'' \<noteq> []" by (simp add: ustr_simps)
  have f: "bot_send_message example_env_forward_fails (ustr ''-1001'')
      (forward_text example_env_forward_fails (strip example_text) (JStr (ustr ''12345'')))
      (ustr ''Markdown'') = Some (TelegramError [])"
    by (simp add: example_env_forward_fails_def)
  have e: "example_env_forward_fails\<lparr>bot_send_message := \<lambda>chat_id text parse_mode. None\<rparr>
      = example_env (http_ok example_quote)"
    by (simp add: example_env_forward_fails_def example_env_def)
  note t = C9_forward_failure_swallowed [OF example_valid u q k g n f]
  have c: "confirm_text example_env_forward_fails (strip example_text) (JStr (ustr ''12345''))
      = ustr ''Processing swap for address: So11111111111111111111111111111111111111112'' @
        [LF] @ ustr ''Quote received: 12345 tokens''"
    by (simp add: confirm_text_def example_env_forward_fails_def example_env_simps
        example_strip example_format_def example_address_def ustr_simps)
  from t have "events_of (handle_message example_env_forward_fails example_text {}) =
      [RegistryAdd (strip example_text), HttpGet quote_url (params (strip example_text)),
       SendMessage (ustr ''-1001'')
         (forward_text example_env_forward_fails (strip example_text) (JStr (ustr ''12345'')))
         (ustr ''Markdown''),
       LogError (ustr ''Failed to forward to group: '') (TelegramError []),
       ReplyText (confirm_text example_env_forward_fails (strip example_text)
         (JStr (ustr ''12345'')))]"
    by blast
  then have r1: "replies (events_of (handle_message example_env_forward_fails example_text {}))
      = [ustr ''Processing swap for address: So11111111111111111111111111111111111111112'' @
         [LF] @ ustr ''Quote received: 12345 tokens'']"
    by (simp add: obs_simps c)
  from t have "result_of (handle_message example_env_forward_fails example_text {}) =
      outcome_of (message_reply_text example_env_forward_fails
        (confirm_text example_env_forward_fails (strip example_text) (JStr (ustr ''12345''))))"
    by blast
  then have r2: "result_of (handle_message example_env_forward_fails example_text {}) = Inr ()"
    by (simp add: outcome_of_def example_env_forward_fails_def example_env_simps)
  from t have "replies (events_of (handle_message example_env_forward_fails example_text {})) =
      replies (events_of (handle_message
        (example_env_forward_fails\<lparr>bot_send_message := \<lambda>chat_id text parse_mode. None\<rparr>)
        example_text {}))"
    by blast
  then have r3: "replies (events_of (handle_message example_env_forward_fails example_text {})) =
      replies (events_of (handle_message (example_env (http_ok example_quote)) example_text {}))"
    by (simp only: e)
  from r1 r2 r3 show ?thesis by blast
qed

text \<open>
  C10: for a valid, unseen address, when the request succeeds and the parsed body is
  falsy, the handler sends the generic failure reply and nothing else (no forward, no
  confirmation), the address stays in the set, and replies, forwards, result and set are
  those of the same run with a transport error in place of the response.
\<close>

theorem C10_falsy_body_is_failure:
  assumes "is_valid_solana_address (strip text)" and "strip text \<notin> reg"
    and "quote_succeeds env (strip text) body" and "\<not> truthy body"
  shows "events_of (handle_message env text reg) =
           [RegistryAdd (strip text), HttpGet quote_url (params (strip text)),
            ReplyText failed_text] \<and>
         replies (events_of (handle_message env text reg)) = [failed_text] \<and>
         forwards (events_of (handle_message env text reg)) = [] \<and>
         strip text \<in> registry_after (handle_message env text reg) \<and>
         result_of (handle_message env text reg) =
           outcome_of (message_reply_text env failed_text) \<and>
         replies (events_of (handle_message env text reg)) =
           replies (events_of (handle_message
             (env\<lparr>requests_get := \<lambda>url ps. Inl e\<rparr>) text reg)) \<and>
         forwards (events_of (handle_message env text reg)) =
           forwards (events_of (handle_message
             (env\<lparr>requests_get := \<lambda>url ps. Inl e\<rparr>) text reg)) \<and>
         registry_after (handle_message env text reg) =
           registry_after (handle_message
             (env\<lparr>requests_get := \<lambda>url ps. Inl e\<rparr>) text reg) \<and>
         result_of (handle_message env text reg) =
           result_of (handle_message
             (env\<lparr>requests_get := \<lambda>url ps. Inl e\<rparr>) text reg)"
proof -
  let ?env' = "env\<lparr>requests_get := \<lambda>url ps. Inl e\<rparr>"
  let ?a = "strip text"
  from swap_succeeds [OF assms(3), of "insert ?a reg"]
  have q: "execute_jupiter_swap env ?a (insert ?a reg) =
      (Inr body, insert ?a reg, [HttpGet quote_url (params ?a)])" .
  have "requests_get ?env' quote_url (params ?a) = Inl e" by simp
  from swap_transport_error [OF this, of "insert ?a reg"]
  have q': "execute_jupiter_swap ?env' ?a (insert ?a reg) =
      (Inr JNull, insert ?a reg,
       [HttpGet quote_url (params ?a), LogError (ustr ''Error getting Jupiter quote: '') e])" .
  have f: "\<not> truthy JNull" by simp
  have same: "message_reply_text ?env' = message_reply_text env" by simp
  show ?thesis
    unfolding handle_fresh_falsy [OF assms(1,2) q assms(4)]
      handle_fresh_falsy [OF assms(1,2) q' f] run_simps same
    by (simp add: obs_simps)
qed

theorem C10_witness:
  "events_of (handle_message (example_env (http_ok (JObj []))) example_text {}) =
     [RegistryAdd example_address, HttpGet quote_url (params example_address),
      ReplyText failed_text] \<and>
   replies (events_of (handle_message (example_env (http_ok (JArr []))) example_text {}))
     = [failed_text] \<and>
   replies (events_of (handle_message (example_env (http_ok (JInt 0))) example_text {}))
     = [failed_text] \<and>
   replies (events_of (handle_message (example_env (http_ok (JStr []))) example_text {}))
     = [failed_text] \<and>
   replies (events_of (handle_message (example_env (http_ok JNull)) example_text {}))
     = [failed_text]"
proof -
  have u: "strip example_text \<notin> {}" by simp
  note t = C10_falsy_body_is_failure [OF example_valid u example_quote_ok]
  from t [of "JObj []"] t [of "JArr []"] t [of "JInt 0"] t [of "JStr []"] t [of JNull]
  show ?thesis by (simp add: example_strip obs_simps)
qed

text \<open>
  C2 (a successful response whose body lacks \<open>outAmount\<close> ends in the generic failure
  reply and raises nothing). The code breaks this: for the body \<open>{"error": "no route"}\<close>
  and no group chat, the handler raises \<open>KeyError('outAmount')\<close> while it formats the
  reply, and sends no reply at all.
\<close>

theorem C2_missing_field_raises:
  "result_of (handle_message
      ((example_env (http_ok (JObj [(ustr ''error'', JStr (ustr ''no route''))])))
         \<lparr>GROUP_CHAT_ID := None\<rparr>) example_text {})
     = Inl (KeyError (ustr ''outAmount'')) \<and>
   events_of (handle_message
      ((example_env (http_ok (JObj [(ustr ''error'', JStr (ustr ''no route''))])))
         \<lparr>GROUP_CHAT_ID := None\<rparr>) example_text {})
     = [RegistryAdd example_address, HttpGet quote_url (params example_address)]"
proof -
  let ?body = "JObj [(ustr ''error'', JStr (ustr ''no route''))]"
  let ?env = "(example_env (http_ok ?body))\<lparr>GROUP_CHAT_ID := None\<rparr>"
  have "quote_succeeds ?env example_address ?body"
    using example_quote_ok [of ?body example_address] by (simp add: quote_succeeds_def)
  from swap_succeeds [OF this, of "insert example_address {}"]
  have q: "execute_jupiter_swap ?env example_address {example_address} =
      (Inr ?body, {example_address}, [HttpGet quote_url (params example_address)])" .
  have k: "map_of [(ustr ''error'', JStr (ustr ''no route''))] (ustr ''outAmount'') = None"
    by (simp add: ustr_simps)
  have v: "is_valid_solana_address example_address"
    using example_valid by (simp add: example_strip)
  show ?thesis
    using v q k
    by (simp add: handle_message_def Let_def example_strip run_simps processed_addresses_def
        processed_addresses_add_def io_bind_def io_return_def io_raise_def
        forward_to_group_def)
qed

end
